theory Spec2Isabelle
  imports Complex_Main
begin

section \<open>TCPSimulator.py: a discrete-event simulation of a TCP-like transfer\<close>

text \<open>
  The module \<^verbatim>\<open>ProblemSet5/TCPSimulator.py\<close> holds a client, a server, three event
  classes and the driver loop \<^verbatim>\<open>TCPSimulator\<close>. Python's integers are \<open>int\<close>, a
  \<^verbatim>\<open>bytes\<close> or \<^verbatim>\<open>bytearray\<close> value is a \<open>string\<close> (a list of 8-bit characters), an
  object's attribute that may not have been assigned yet is an \<open>option\<close>, and every
  exception is a value \<open>Inl e\<close> of the result type \<open>error + sim\<close>.
  A message typed by the user is represented by its UTF-8 encoding throughout.
\<close>

subsection \<open>Constants\<close>

definition MAX_PACKET_DATA :: int where
  "MAX_PACKET_DATA = 4"

definition TRANSMISSION_DELAY :: int where
  "TRANSMISSION_DELAY = 5"

definition ROUND_TRIP_TIME :: int where
  "ROUND_TRIP_TIME = 2 * TRANSMISSION_DELAY"

definition TIMEOUT :: int where
  "TIMEOUT = 2 * ROUND_TRIP_TIME"

text \<open>
  What the module takes from outside. \<^verbatim>\<open>LOST_PACKET_PROBABILITY\<close> is a module constant
  (0.25 in the source, see \<open>source_env\<close>) that the properties below also set to 0 and
  to 1, so it is a field here. \<open>randint env k\<close> is the value returned by the \<open>k\<close>-th
  call \<^verbatim>\<open>random.randint(0,1)\<close> of the run: 0 or 1. \<open>default_window\<close> is the value
  the constructor of \<^verbatim>\<open>TCPPacket\<close> gives to the window of a packet built without one;
  \<^verbatim>\<open>packet.py\<close> is not among the sources, and no line of the module reads a window.
\<close>

record env =
  LOST_PACKET_PROBABILITY :: real
  randint :: "nat \<Rightarrow> int"
  default_window :: int

definition source_env :: "(nat \<Rightarrow> int) \<Rightarrow> int \<Rightarrow> env" where
  "source_env draws w =
     \<lparr>LOST_PACKET_PROBABILITY = 0.25, randint = draws, default_window = w\<rparr>"

subsection \<open>Packets and the event queue\<close>

text \<open>
  Modelled from the spec: the packet container \<^verbatim>\<open>TCPPacket\<close> of \<^verbatim>\<open>packet.py\<close>, which is
  not among the sources. The spec gives it a sequence number, an acknowledgment number,
  the flags ACK, FIN and SYN, an advertised window and the payload bytes. The module
  builds packets by keyword (\<^verbatim>\<open>seq\<close>, \<^verbatim>\<open>ack\<close>, \<^verbatim>\<open>ACK\<close>, \<^verbatim>\<open>data\<close>) and sets \<^verbatim>\<open>FIN\<close>
  afterwards; a flag that is not given is off and a payload that is not given is empty.
\<close>

record packet =
  pkt_seq :: int
  pkt_ack :: int
  ACK :: bool
  FIN :: bool
  SYN :: bool
  pkt_window :: int
  pkt_data :: string

definition TCPPacket :: "env \<Rightarrow> int \<Rightarrow> int \<Rightarrow> bool \<Rightarrow> string \<Rightarrow> packet" where
  "TCPPacket env sq ak a d =
     \<lparr>pkt_seq = sq, pkt_ack = ak, ACK = a, FIN = False, SYN = False,
      pkt_window = default_window env, pkt_data = d\<rparr>"

text \<open>
  The client and the server are single objects, so a reference to one of them is a tag.
  A \<^verbatim>\<open>TimeoutEvent\<close> stores whatever object its constructor is given in its field
  \<^verbatim>\<open>packet\<close>: the driver passes the client itself (\<^verbatim>\<open>TimeoutEvent(self, )\<close>), the name
  of the field suggests a packet.
\<close>

datatype handler = Client | Server

datatype timeout_object = ClientObject | PacketObject packet

datatype event =
    RequestMessageEvent
  | ReceivePacketEvent handler packet
  | TimeoutEvent timeout_object

text \<open>
  Modelled from the spec: the queue \<^verbatim>\<open>PriorityQueue\<close> of \<^verbatim>\<open>pqueue.py\<close>, which is not
  among the sources. The spec makes it time-ordered, with entries of equal time leaving
  in the order they were inserted. The queue is the list of its entries in leaving order.
\<close>

type_synonym queue = "(event \<times> int) list"

fun enqueue :: "event \<Rightarrow> int \<Rightarrow> queue \<Rightarrow> queue" where
  "enqueue e t [] = [(e, t)]"
| "enqueue e t ((e', t') # q) =
     (if t' \<le> t then (e', t') # enqueue e t q else (e, t) # (e', t') # q)"

subsection \<open>Python's slices and UTF-8 decoding\<close>

text \<open>
  \<^verbatim>\<open>xs[a:b]\<close>: a negative bound counts from the end, and both bounds are clipped to the
  length; the slice is empty when the bounds cross.
\<close>

definition slice_bound :: "int \<Rightarrow> nat \<Rightarrow> nat" where
  "slice_bound i n =
     (if i < 0 then (if i + int n < 0 then 0 else nat (i + int n))
      else if int n < i then n else nat i)"

definition py_slice :: "'a list \<Rightarrow> int \<Rightarrow> int \<Rightarrow> 'a list" where
  "py_slice xs a b =
     (let lo = slice_bound a (length xs); hi = slice_bound b (length xs)
      in take (hi - lo) (drop lo xs))"

text \<open>
  \<^verbatim>\<open>bytes.decode("UTF-8")\<close> raises \<^verbatim>\<open>UnicodeDecodeError\<close> unless the bytes are well-formed
  UTF-8: no overlong form, no surrogate, nothing above U+10FFFF, no truncated sequence.
\<close>

definition cont :: "nat \<Rightarrow> bool" where
  "cont b = (0x80 \<le> b \<and> b \<le> 0xBF)"

definition second3 :: "nat \<Rightarrow> nat \<Rightarrow> bool" where
  "second3 b0 b1 =
     (if b0 = 0xE0 then 0xA0 \<le> b1 \<and> b1 \<le> 0xBF
      else if b0 = 0xED then 0x80 \<le> b1 \<and> b1 \<le> 0x9F
      else cont b1)"

definition second4 :: "nat \<Rightarrow> nat \<Rightarrow> bool" where
  "second4 b0 b1 =
     (if b0 = 0xF0 then 0x90 \<le> b1 \<and> b1 \<le> 0xBF
      else if b0 = 0xF4 then 0x80 \<le> b1 \<and> b1 \<le> 0x8F
      else cont b1)"

fun utf8_wf :: "nat list \<Rightarrow> bool" where
  "utf8_wf [] = True"
| "utf8_wf (b0 # bs) =
     (if b0 < 0x80 then utf8_wf bs
      else if 0xC2 \<le> b0 \<and> b0 \<le> 0xDF then
        (case bs of b1 # r \<Rightarrow> cont b1 \<and> utf8_wf r | _ \<Rightarrow> False)
      else if 0xE0 \<le> b0 \<and> b0 \<le> 0xEF then
        (case bs of b1 # b2 # r \<Rightarrow> second3 b0 b1 \<and> cont b2 \<and> utf8_wf r | _ \<Rightarrow> False)
      else if 0xF0 \<le> b0 \<and> b0 \<le> 0xF4 then
        (case bs of b1 # b2 # b3 # r \<Rightarrow>
           second4 b0 b1 \<and> cont b2 \<and> cont b3 \<and> utf8_wf r | _ \<Rightarrow> False)
      else False)"

definition decodable :: "string \<Rightarrow> bool" where
  "decodable bs = utf8_wf (map of_char bs)"

subsection \<open>The state of a run\<close>

datatype error =
    AttributeError string
  | EOFError
  | UnicodeDecodeError

datatype printed = ClientSends string | ServerReceives string

text \<open>
  \<^verbatim>\<open>TCPClient.__init__\<close> assigns \<^verbatim>\<open>acknowledged\<close> only; \<^verbatim>\<open>msgBytes\<close>, \<^verbatim>\<open>seq\<close> and \<^verbatim>\<open>ack\<close>
  appear with the first message. The dictionary \<^verbatim>\<open>acknowledged\<close> is keyed by packets,
  compared here by their fields. \<^verbatim>\<open>TCPServer.__init__\<close> assigns \<^verbatim>\<open>msgBytes\<close> and \<^verbatim>\<open>ack\<close>
  (through \<^verbatim>\<open>resetForNextMessage\<close>); its \<^verbatim>\<open>seq\<close> appears with the first packet.
\<close>

record TCPClient =
  acknowledged :: "packet \<rightharpoonup> bool"
  c_msgBytes :: "string option"
  c_seq :: "int option"
  c_ack :: "int option"

record TCPServer =
  s_msgBytes :: string
  s_seq :: "int option"
  s_ack :: int

text \<open>
  A run's state: the two objects, the event queue, the lines the user will still type
  (\<^verbatim>\<open>input\<close> raises \<^verbatim>\<open>EOFError\<close> when there is none), the number of draws made so far,
  and what has been printed.
\<close>

record sim =
  client :: TCPClient
  server :: TCPServer
  eventQueue :: queue
  inputs :: "string list"
  ndraws :: nat
  console :: "printed list"

subsection \<open>TCPClient\<close>

definition queueRequestMessage :: "int \<Rightarrow> sim \<Rightarrow> sim" where
  "queueRequestMessage t s = s\<lparr>eventQueue := enqueue RequestMessageEvent t (eventQueue s)\<rparr>"

definition queueTimeoutMessage :: "int \<Rightarrow> sim \<Rightarrow> sim" where
  "queueTimeoutMessage t s =
     s\<lparr>eventQueue := enqueue (TimeoutEvent ClientObject) t (eventQueue s)\<rparr>"

definition sendNextPacket :: "env \<Rightarrow> int \<Rightarrow> sim \<Rightarrow> error + sim" where
  "sendNextPacket env t s =
     (case c_msgBytes (client s) of
        None \<Rightarrow> Inl (AttributeError ''msgBytes'')
      | Some mb \<Rightarrow>
     (case c_seq (client s) of
        None \<Rightarrow> Inl (AttributeError ''seq'')
      | Some sq \<Rightarrow>
     (case c_ack (client s) of
        None \<Rightarrow> Inl (AttributeError ''ack'')
      | Some ak \<Rightarrow>
       (let nBytes = min MAX_PACKET_DATA (int (length mb) - sq);
            d = py_slice mb sq (sq + nBytes);
            p0 = TCPPacket env sq ak True d;
            p = (if sq + nBytes = int (length mb) then p0\<lparr>FIN := True\<rparr> else p0);
            e = ReceivePacketEvent Server p;
            r = randint env (ndraws s);
            s1 = s\<lparr>ndraws := Suc (ndraws s)\<rparr>
        in if LOST_PACKET_PROBABILITY env \<le> of_int r then
             (let s2 = s1\<lparr>eventQueue := enqueue e (t + TRANSMISSION_DELAY) (eventQueue s1)\<rparr>
              in if FIN p then Inr (queueRequestMessage (t + TIMEOUT) s2) else Inr s2)
           else Inr s1))))"

definition requestMessage :: "env \<Rightarrow> int \<Rightarrow> sim \<Rightarrow> error + sim" where
  "requestMessage env t s =
     (case inputs s of
        [] \<Rightarrow> Inl EOFError
      | msg # rest \<Rightarrow>
          (let s1 = s\<lparr>inputs := rest\<rparr>
           in if length msg \<noteq> 0 then
                sendNextPacket env t
                  (s1\<lparr>console := console s1 @ [ClientSends msg],
                      client := (client s1)\<lparr>c_msgBytes := Some msg, c_seq := Some 0,
                                            c_ack := Some 0\<rparr>\<rparr>)
              else Inr s1))"

definition client_receivePacket :: "env \<Rightarrow> packet \<Rightarrow> int \<Rightarrow> sim \<Rightarrow> error + sim" where
  "client_receivePacket env p t s =
     (let c = (client s)\<lparr>c_seq := Some (pkt_ack p), c_ack := Some (pkt_seq p + 1)\<rparr>;
          c = c\<lparr>acknowledged := (acknowledged c)(p \<mapsto> True)\<rparr>;
          s1 = s\<lparr>client := c\<rparr>
      in case c_msgBytes c of
           None \<Rightarrow> Inl (AttributeError ''msgBytes'')
         | Some mb \<Rightarrow>
             if pkt_ack p < int (length mb) then sendNextPacket env t s1 else Inr s1)"

subsection \<open>TCPServer\<close>

definition resetForNextMessage :: "TCPServer \<Rightarrow> TCPServer" where
  "resetForNextMessage sv = sv\<lparr>s_msgBytes := [], s_ack := 0\<rparr>"

definition TCPServer_init :: TCPServer where
  "TCPServer_init = \<lparr>s_msgBytes = [], s_seq = None, s_ack = 0\<rparr>"

definition server_receivePacket :: "env \<Rightarrow> packet \<Rightarrow> int \<Rightarrow> sim \<Rightarrow> error + sim" where
  "server_receivePacket env p t s =
     (let sv = (server s)\<lparr>s_msgBytes := s_msgBytes (server s) @ pkt_data p\<rparr>;
          sv = sv\<lparr>s_seq := Some (pkt_ack p)\<rparr>;
          sv = sv\<lparr>s_ack := pkt_seq p + int (length (pkt_data p))\<rparr>;
          reply = TCPPacket env (pkt_ack p) (s_ack sv) True [];
          deliver = (\<lambda>reply s'.
             Inr (s'\<lparr>eventQueue :=
                       enqueue (ReceivePacketEvent Client reply) (t + TRANSMISSION_DELAY)
                         (eventQueue s')\<rparr>))
      in if FIN p then
           (if decodable (s_msgBytes sv) then
              deliver (reply\<lparr>FIN := True\<rparr>)
                (s\<lparr>console := console s @ [ServerReceives (s_msgBytes sv)],
                   server := resetForNextMessage sv\<rparr>)
            else Inl UnicodeDecodeError)
         else deliver reply (s\<lparr>server := sv\<rparr>))"

subsection \<open>Events and the driver\<close>

text \<open>
  \<^verbatim>\<open>TimeoutEvent.dispatch\<close> tests the truth value of the stored object's \<^verbatim>\<open>ack\<close> (an
  integer is false when it is 0). Its other branch reads \<^verbatim>\<open>self.server\<close>, an attribute
  that neither \<^verbatim>\<open>TimeoutEvent\<close> nor \<^verbatim>\<open>TCPEvent\<close> assigns.
\<close>

definition timeout_object_ack :: "timeout_object \<Rightarrow> sim \<Rightarrow> error + int" where
  "timeout_object_ack ob s =
     (case ob of
        ClientObject \<Rightarrow>
          (case c_ack (client s) of None \<Rightarrow> Inl (AttributeError ''ack'') | Some a \<Rightarrow> Inr a)
      | PacketObject p \<Rightarrow> Inr (pkt_ack p))"

definition dispatch :: "env \<Rightarrow> event \<Rightarrow> int \<Rightarrow> sim \<Rightarrow> error + sim" where
  "dispatch env e t s =
     (case e of
        RequestMessageEvent \<Rightarrow> requestMessage env t s
      | ReceivePacketEvent Client p \<Rightarrow> client_receivePacket env p t s
      | ReceivePacketEvent Server p \<Rightarrow> server_receivePacket env p t s
      | TimeoutEvent ob \<Rightarrow>
          (case timeout_object_ack ob s of
             Inl err \<Rightarrow> Inl err
           | Inr a \<Rightarrow> if a \<noteq> 0 then Inr s else Inl (AttributeError ''server'')))"

text \<open>
  The state on entry to the loop of \<^verbatim>\<open>TCPSimulator\<close>: both objects constructed, a
  \<^verbatim>\<open>RequestMessageEvent\<close> queued for time 0 and then a \<^verbatim>\<open>TimeoutEvent\<close> for \<^verbatim>\<open>TIMEOUT\<close>.
\<close>

definition TCPClient_init :: TCPClient where
  "TCPClient_init =
     \<lparr>acknowledged = Map.empty, c_msgBytes = None, c_seq = None, c_ack = None\<rparr>"

definition start :: "string list \<Rightarrow> sim" where
  "start ins =
     queueTimeoutMessage TIMEOUT
       (queueRequestMessage 0
          \<lparr>client = TCPClient_init, server = TCPServer_init, eventQueue = [],
           inputs = ins, ndraws = 0, console = []\<rparr>)"

text \<open>
  One turn of the loop takes the earliest entry off the queue and dispatches it; with an
  empty queue the loop has ended and the state stays. \<open>steps env n\<close> is the state after
  \<open>n\<close> turns; an exception ends the run. \<open>TCPSimulator env ins n\<close> is the run on the
  typed lines \<open>ins\<close>: \<open>None\<close> when the loop is still going after \<open>n\<close> turns.
\<close>

definition step :: "env \<Rightarrow> sim \<Rightarrow> error + sim" where
  "step env s =
     (case eventQueue s of
        [] \<Rightarrow> Inr s
      | (e, t) # q \<Rightarrow> dispatch env e t (s\<lparr>eventQueue := q\<rparr>))"

fun steps :: "env \<Rightarrow> nat \<Rightarrow> sim \<Rightarrow> error + sim" where
  "steps env 0 s = Inr s"
| "steps env (Suc n) s =
     (case step env s of Inl err \<Rightarrow> Inl err | Inr s' \<Rightarrow> steps env n s')"

definition TCPSimulator :: "env \<Rightarrow> string list \<Rightarrow> nat \<Rightarrow> (error + sim) option" where
  "TCPSimulator env ins n =
     (case steps env n (start ins) of
        Inl err \<Rightarrow> Some (Inl err)
      | Inr s \<Rightarrow> if eventQueue s = [] then Some (Inr s) else None)"

subsection \<open>Notions used to state the properties\<close>

text \<open>
  Two fixed sequences of draws, and the environments of the examples: no packet is lost
  in \<open>no_loss_env\<close>; \<open>certain_loss_env\<close> sets \<^verbatim>\<open>LOST_PACKET_PROBABILITY\<close> to 1 and draws
  1 every time; \<open>dropping_env\<close> has the constant of the source and draws 0 every time.
\<close>

definition draw_one :: "nat \<Rightarrow> int" where
  "draw_one k = 1"

definition draw_zero :: "nat \<Rightarrow> int" where
  "draw_zero k = 0"

definition no_loss_env :: env where
  "no_loss_env = \<lparr>LOST_PACKET_PROBABILITY = 0, randint = draw_one, default_window = 0\<rparr>"

definition certain_loss_env :: env where
  "certain_loss_env = \<lparr>LOST_PACKET_PROBABILITY = 1, randint = draw_one, default_window = 0\<rparr>"

definition dropping_env :: env where
  "dropping_env = source_env draw_zero 0"

text \<open>
  The run on the one message \<^verbatim>\<open>HELLOWORLD\<close> in \<open>no_loss_env\<close>: the first data packet and
  the replies to the first two, and the states after 2, 3 and 4 turns of the loop (the
  server has received the first packet; the client has received its reply and sent the
  second packet; the server has received the second packet).
\<close>

definition HELL_packet :: packet where
  "HELL_packet =
     \<lparr>pkt_seq = 0, pkt_ack = 0, ACK = True, FIN = False, SYN = False, pkt_window = 0,
      pkt_data = ''HELL''\<rparr>"

definition OWOR_packet :: packet where
  "OWOR_packet =
     \<lparr>pkt_seq = 4, pkt_ack = 1, ACK = True, FIN = False, SYN = False, pkt_window = 0,
      pkt_data = ''OWOR''\<rparr>"

definition HELL_reply :: packet where
  "HELL_reply =
     \<lparr>pkt_seq = 0, pkt_ack = 4, ACK = True, FIN = False, SYN = False, pkt_window = 0,
      pkt_data = []\<rparr>"

definition OWOR_reply :: packet where
  "OWOR_reply =
     \<lparr>pkt_seq = 1, pkt_ack = 8, ACK = True, FIN = False, SYN = False, pkt_window = 0,
      pkt_data = []\<rparr>"

definition after_HELL :: sim where
  "after_HELL =
     \<lparr>client = \<lparr>acknowledged = Map.empty, c_msgBytes = Some ''HELLOWORLD'',
                 c_seq = Some 0, c_ack = Some 0\<rparr>,
      server = \<lparr>s_msgBytes = ''HELL'', s_seq = Some 0, s_ack = 4\<rparr>,
      eventQueue = [(ReceivePacketEvent Client HELL_reply, 10),
                    (TimeoutEvent ClientObject, 20)],
      inputs = [], ndraws = 1, console = [ClientSends ''HELLOWORLD'']\<rparr>"

definition after_HELL_reply :: sim where
  "after_HELL_reply =
     \<lparr>client = \<lparr>acknowledged = [HELL_reply \<mapsto> True], c_msgBytes = Some ''HELLOWORLD'',
                 c_seq = Some 4, c_ack = Some 1\<rparr>,
      server = \<lparr>s_msgBytes = ''HELL'', s_seq = Some 0, s_ack = 4\<rparr>,
      eventQueue = [(ReceivePacketEvent Server OWOR_packet, 15),
                    (TimeoutEvent ClientObject, 20)],
      inputs = [], ndraws = 2, console = [ClientSends ''HELLOWORLD'']\<rparr>"

definition after_OWOR :: sim where
  "after_OWOR =
     \<lparr>client = \<lparr>acknowledged = [HELL_reply \<mapsto> True], c_msgBytes = Some ''HELLOWORLD'',
                 c_seq = Some 4, c_ack = Some 1\<rparr>,
      server = \<lparr>s_msgBytes = ''HELLOWOR'', s_seq = Some 1, s_ack = 8\<rparr>,
      eventQueue = [(TimeoutEvent ClientObject, 20),
                    (ReceivePacketEvent Client OWOR_reply, 20)],
      inputs = [], ndraws = 2, console = [ClientSends ''HELLOWORLD'']\<rparr>"

text \<open>
  The state in which the client of that run calls \<open>sendNextPacket\<close> for the second
  packet: only the driver's timeout is queued.
\<close>

definition sending_OWOR :: sim where
  "sending_OWOR =
     after_HELL_reply\<lparr>eventQueue := [(TimeoutEvent ClientObject, 20)], ndraws := 1\<rparr>"

text \<open>
  An acknowledgment of byte 4 whose window field is given as 0, whatever the constructor's
  default is; an environment whose default window is large; and the state the loop hands
  to the client's \<open>receivePacket\<close> when the reply to the first packet of \<^verbatim>\<open>HELLOWORLD\<close>
  arrives (the client has sent bytes 0 to 3, only the driver's timeout is queued).
\<close>

definition zero_window_ack :: packet where
  "zero_window_ack =
     \<lparr>pkt_seq = 0, pkt_ack = 4, ACK = True, FIN = False, SYN = False, pkt_window = 0,
      pkt_data = []\<rparr>"

definition wide_window_env :: env where
  "wide_window_env =
     \<lparr>LOST_PACKET_PROBABILITY = 0, randint = draw_one, default_window = 65535\<rparr>"

definition awaiting_reply :: sim where
  "awaiting_reply = after_HELL\<lparr>eventQueue := [(TimeoutEvent ClientObject, 20)]\<rparr>"

text \<open>
  A packet with FIN whose data is the single byte A9, the second byte of a two-byte
  UTF-8 sequence: the last packet of a message of five bytes that ends in such a
  character.
\<close>

definition A9_fin_packet :: packet where
  "A9_fin_packet =
     \<lparr>pkt_seq = 4, pkt_ack = 1, ACK = True, FIN = True, SYN = False, pkt_window = 0,
      pkt_data = [CHR 0xA9]\<rparr>"

text \<open>
  Observations on a queue: whether an entry is a \<^verbatim>\<open>TimeoutEvent\<close>, and the number of data
  bytes on their way to the server (bytes that were sent and cannot have been
  acknowledged yet).
\<close>

fun is_timeout :: "event \<times> int \<Rightarrow> bool" where
  "is_timeout (TimeoutEvent ob, t) = True"
| "is_timeout (e, t) = False"

fun data_bytes :: "event \<times> int \<Rightarrow> nat" where
  "data_bytes (ReceivePacketEvent Server p, t) = length (pkt_data p)"
| "data_bytes (e, t) = 0"

definition bytes_in_flight :: "queue \<Rightarrow> nat" where
  "bytes_in_flight q = sum_list (map data_bytes q)"



definition data_packet :: "env \<Rightarrow> string \<Rightarrow> int \<Rightarrow> int \<Rightarrow> packet" where
  "data_packet env mb sq ak =
     (let nBytes = min MAX_PACKET_DATA (int (length mb) - sq);
          p0 = TCPPacket env sq ak True (py_slice mb sq (sq + nBytes))
      in if sq + nBytes = int (length mb) then p0\<lparr>FIN := True\<rparr> else p0)"

definition send_queue :: "env \<Rightarrow> string \<Rightarrow> int \<Rightarrow> int \<Rightarrow> int \<Rightarrow> queue \<Rightarrow> queue" where
  "send_queue env mb sq ak t q =
     (let p = data_packet env mb sq ak;
          q1 = enqueue (ReceivePacketEvent Server p) (t + TRANSMISSION_DELAY) q
      in if FIN p then enqueue RequestMessageEvent (t + TIMEOUT) q1 else q1)"





text \<open>
  For the invariant of the driver's runs: whether an entry carries a packet; the queue
  without its \<^verbatim>\<open>TimeoutEvent\<close>s; and the shapes that remainder can have. It holds at most
  one packet, and a \<^verbatim>\<open>RequestMessageEvent\<close> stands behind a packet only when that packet
  (or the reply to it) completes the message \<open>mbo\<close> of the client, so that the client
  sends nothing more before the request is served.
\<close>

fun is_packet_event :: "event \<times> int \<Rightarrow> bool" where
  "is_packet_event (ReceivePacketEvent h p, t) = True"
| "is_packet_event (e, t) = False"

definition live :: "queue \<Rightarrow> queue" where
  "live q = filter (\<lambda>x. \<not> is_timeout x) q"

definition good_data :: "packet \<Rightarrow> bool" where
  "good_data p = (0 \<le> pkt_seq p \<and> length (pkt_data p) \<le> 4)"

definition covers :: "string option \<Rightarrow> int \<Rightarrow> bool" where
  "covers mbo k = (case mbo of None \<Rightarrow> False | Some mb \<Rightarrow> int (length mb) \<le> k)"

fun shape :: "string option \<Rightarrow> queue \<Rightarrow> bool" where
  "shape mbo [] = True"
| "shape mbo [(RequestMessageEvent, t)] = True"
| "shape mbo [(ReceivePacketEvent Server p, t)] = good_data p"
| "shape mbo [(ReceivePacketEvent Client r, t)] = (0 \<le> pkt_ack r)"
| "shape mbo [(ReceivePacketEvent Server p, t), (RequestMessageEvent, t')] =
     (good_data p \<and> t + 5 < t' \<and> covers mbo (pkt_seq p + int (length (pkt_data p))))"
| "shape mbo [(ReceivePacketEvent Client r, t), (RequestMessageEvent, t')] =
     (0 \<le> pkt_ack r \<and> covers mbo (pkt_ack r))"
| "shape mbo q = False"

definition stop_and_wait :: "sim \<Rightarrow> bool" where
  "stop_and_wait s =
     (sorted (map snd (eventQueue s)) \<and> shape (c_msgBytes (client s)) (live (eventQueue s)))"

section \<open>Lemmas\<close>

lemmas const_defs = MAX_PACKET_DATA_def TRANSMISSION_DELAY_def ROUND_TRIP_TIME_def TIMEOUT_def

lemmas run_defs = TCPSimulator_def start_def step_def dispatch_def requestMessage_def
  sendNextPacket_def client_receivePacket_def server_receivePacket_def
  queueTimeoutMessage_def queueRequestMessage_def resetForNextMessage_def
  TCPClient_init_def TCPServer_init_def timeout_object_ack_def TCPPacket_def
  py_slice_def slice_bound_def decodable_def cont_def second3_def second4_def const_defs

lemmas example_defs = no_loss_env_def certain_loss_env_def dropping_env_def source_env_def
  draw_one_def draw_zero_def HELL_packet_def OWOR_packet_def HELL_reply_def OWOR_reply_def
  after_HELL_def after_HELL_reply_def after_OWOR_def sending_OWOR_def zero_window_ack_def
  wide_window_env_def awaiting_reply_def A9_fin_packet_def

subsection \<open>Turns of the loop\<close>

lemma steps_add:
  "steps env (m + n) s =
     (case steps env m s of Inl err \<Rightarrow> Inl err | Inr s' \<Rightarrow> steps env n s')"
  by (induction m arbitrary: s) (auto split: sum.splits)

lemma steps_then_step:
  assumes "steps env n s = Inr s1" and "step env s1 = Inr s2"
  shows "steps env (Suc n) s = Inr s2"
proof -
  have "steps env (n + 1) s = Inr s2"
    unfolding steps_add using assms by simp
  then show ?thesis by simp
qed

subsection \<open>The run on HELLOWORLD\<close>

lemma steps_2_HELLOWORLD: "steps no_loss_env 2 (start [''HELLOWORLD'']) = Inr after_HELL"
  by (simp add: run_defs example_defs eval_nat_numeral)

lemma step_after_HELL: "step no_loss_env after_HELL = Inr after_HELL_reply"
  by (simp add: run_defs example_defs)

lemma step_after_HELL_reply: "step no_loss_env after_HELL_reply = Inr after_OWOR"
  by (simp add: run_defs example_defs)

lemma steps_3_HELLOWORLD:
  "steps no_loss_env 3 (start [''HELLOWORLD'']) = Inr after_HELL_reply"
  using steps_then_step[OF steps_2_HELLOWORLD step_after_HELL]
  by (simp add: eval_nat_numeral)

lemma steps_4_HELLOWORLD: "steps no_loss_env 4 (start [''HELLOWORLD'']) = Inr after_OWOR"
  using steps_then_step[OF steps_3_HELLOWORLD step_after_HELL_reply]
  by (simp add: eval_nat_numeral)

subsection \<open>What the methods change\<close>

lemma filter_enqueue_other: "\<not> P (e, t) \<Longrightarrow> filter P (enqueue e t q) = filter P q"
  by (induction q) auto

lemma sendNextPacket_frame:
  "sendNextPacket env t s = Inr s' \<Longrightarrow>
     client s' = client s \<and> server s' = server s \<and> inputs s' = inputs s \<and>
     console s' = console s"
  by (auto simp: sendNextPacket_def Let_def queueRequestMessage_def
      split: option.splits if_splits)

lemma sendNextPacket_returns:
  "c_msgBytes (client s) = Some mb \<Longrightarrow> c_seq (client s) = Some sq \<Longrightarrow>
   c_ack (client s) = Some ak \<Longrightarrow> \<exists>s'. sendNextPacket env t s = Inr s'"
  by (auto simp: sendNextPacket_def Let_def)

lemma sendNextPacket_queue_cong:
  "c_msgBytes (client s) = c_msgBytes (client s') \<Longrightarrow>
   c_seq (client s) = c_seq (client s') \<Longrightarrow> c_ack (client s) = c_ack (client s') \<Longrightarrow>
   eventQueue s = eventQueue s' \<Longrightarrow> ndraws s = ndraws s' \<Longrightarrow>
   map_sum id eventQueue (sendNextPacket env t s) =
   map_sum id eventQueue (sendNextPacket env t s')"
  by (auto simp: sendNextPacket_def Let_def queueRequestMessage_def split: option.splits)

lemma client_receivePacket_window:
  "map_sum id eventQueue (client_receivePacket env (p\<lparr>pkt_window := w\<rparr>) t s) =
   map_sum id eventQueue (client_receivePacket env p t s)"
  by (auto simp: client_receivePacket_def Let_def split: option.splits
      intro!: sendNextPacket_queue_cong)

lemma client_receivePacket_acknowledged:
  assumes "client_receivePacket env p t s = Inr s'"
  shows "acknowledged (client s') = (acknowledged (client s))(p \<mapsto> True)"
  using assms
  by (auto simp: client_receivePacket_def Let_def split: option.splits if_splits
      dest!: sendNextPacket_frame)

lemma server_receivePacket_client:
  "server_receivePacket env p t s = Inr s' \<Longrightarrow> client s' = client s"
  by (auto simp: server_receivePacket_def Let_def split: if_splits)

lemma requestMessage_acknowledged:
  "requestMessage env t s = Inr s' \<Longrightarrow> acknowledged (client s') = acknowledged (client s)"
  by (auto simp: requestMessage_def Let_def split: list.splits if_splits
      dest!: sendNextPacket_frame)

lemma dispatch_acknowledged:
  assumes "dispatch env e t s = Inr s'" and "acknowledged (client s) k = Some True"
  shows "acknowledged (client s') k = Some True"
proof (cases e)
  case RequestMessageEvent
  then show ?thesis
    using assms requestMessage_acknowledged[of env t s s'] by (simp add: dispatch_def)
next
  case (ReceivePacketEvent h p)
  then show ?thesis
    using assms client_receivePacket_acknowledged[of env p t s s']
      server_receivePacket_client[of env p t s s']
    by (cases h) (auto simp: dispatch_def)
next
  case (TimeoutEvent ob)
  then show ?thesis
    using assms by (auto simp: dispatch_def split: sum.splits if_splits)
qed

lemma step_acknowledged:
  assumes "step env s = Inr s'" and "acknowledged (client s) k = Some True"
  shows "acknowledged (client s') k = Some True"
proof (cases "eventQueue s")
  case Nil
  then show ?thesis using assms by (simp add: step_def)
next
  case (Cons a q)
  obtain e t where "a = (e, t)" by (cases a)
  with Cons assms(1) have "dispatch env e t (s\<lparr>eventQueue := q\<rparr>) = Inr s'"
    by (simp add: step_def)
  from dispatch_acknowledged[OF this] assms(2) show ?thesis by simp
qed

lemma steps_acknowledged:
  "steps env n s = Inr s' \<Longrightarrow> acknowledged (client s) k = Some True \<Longrightarrow>
   acknowledged (client s') k = Some True"
proof (induction n arbitrary: s)
  case 0
  then show ?case by simp
next
  case (Suc n)
  then obtain s1 where s1: "step env s = Inr s1" "steps env n s1 = Inr s'"
    by (auto split: sum.splits)
  from Suc.IH[OF s1(2)] step_acknowledged[OF s1(1) Suc.prems(2)] show ?case .
qed

subsection \<open>Single turns when no packet is lost\<close>


lemma data_packet_fields:
  assumes "sq < length mb"
  shows "pkt_seq (data_packet env mb (int sq) ak) = int sq"
    and "pkt_ack (data_packet env mb (int sq) ak) = ak"
    and "pkt_data (data_packet env mb (int sq) ak) = take 4 (drop sq mb)"
    and "FIN (data_packet env mb (int sq) ak) = (length mb \<le> sq + 4)"
  using assms
  by (auto simp: data_packet_def Let_def TCPPacket_def py_slice_def slice_bound_def min_def
      MAX_PACKET_DATA_def nat_add_distrib)








subsection \<open>Turns of the loop, on views\<close>












subsection \<open>A transfer without loss\<close>





subsection \<open>One packet at a time\<close>

lemma set_enqueue: "set (enqueue e t q) = insert (e, t) (set q)"
  by (induction q) (auto split: if_splits)

lemma sorted_enqueue: "sorted (map snd q) \<Longrightarrow> sorted (map snd (enqueue e t q))"
  by (induction q) (fastforce simp: set_enqueue)+

lemma enqueue_front:
  assumes "\<forall>x \<in> set q. t < snd x"
  shows "enqueue e t q = (e, t) # q"
proof (cases q)
  case Nil
  then show ?thesis by simp
next
  case (Cons b r)
  with assms have "t < snd b" by simp
  with Cons show ?thesis by (cases b) auto
qed

lemma live_enqueue:
  "sorted (map snd q) \<Longrightarrow> \<not> is_timeout (e, t) \<Longrightarrow> live (enqueue e t q) = enqueue e t (live q)"
proof (induction q)
  case Nil
  then show ?case by (simp add: live_def)
next
  case (Cons a q)
  obtain e' t' where a: "a = (e', t')" by (cases a)
  show ?case
  proof (cases "t' \<le> t")
    case True
    with Cons a show ?thesis by (auto simp: live_def)
  next
    case False
    from Cons.prems(1) a have "\<forall>x \<in> set (a # q). t' \<le> snd x" by auto
    with False have "\<forall>x \<in> set (live (a # q)). t < snd x" by (auto simp: live_def)
    from enqueue_front[OF this] have "enqueue e t (live (a # q)) = (e, t) # live (a # q)" .
    moreover have "live (enqueue e t (a # q)) = (e, t) # live (a # q)"
      using False Cons.prems(2) a by (simp add: live_def)
    ultimately show ?thesis by simp
  qed
qed

lemma bytes_in_flight_live: "bytes_in_flight (live q) = bytes_in_flight q"
proof (induction q)
  case Nil
  then show ?case by (simp add: live_def)
next
  case (Cons a q)
  obtain e t where a: "a = (e, t)" by (cases a)
  from Cons a show ?case by (cases e) (auto simp: live_def bytes_in_flight_def)
qed

lemma packets_live: "filter is_packet_event (live q) = filter is_packet_event q"
proof (induction q)
  case Nil
  then show ?case by (simp add: live_def)
next
  case (Cons a q)
  obtain e t where a: "a = (e, t)" by (cases a)
  from Cons a show ?case by (cases e) (auto simp: live_def)
qed

lemma shape_bound:
  "shape mbo L \<Longrightarrow> bytes_in_flight L \<le> 4 \<and> length (filter is_packet_event L) \<le> 1"
  by (induction mbo L rule: shape.induct) (auto simp: bytes_in_flight_def good_data_def)

lemma shape_Request [simp]: "shape mbo ((RequestMessageEvent, t) # L) = (L = [])"
  by (cases "(mbo, (RequestMessageEvent, t) # L)" rule: shape.cases) auto

lemma shape_Timeout [simp]: "shape mbo ((TimeoutEvent ob, t) # L) = False"
  by (cases "(mbo, (TimeoutEvent ob, t) # L)" rule: shape.cases) auto

lemma shape_Server:
  "shape mbo ((ReceivePacketEvent Server p, t) # L) =
     (good_data p \<and>
      (L = [] \<or> (\<exists>t'. L = [(RequestMessageEvent, t')] \<and> t + 5 < t' \<and>
                      covers mbo (pkt_seq p + int (length (pkt_data p))))))"
  by (cases "(mbo, (ReceivePacketEvent Server p, t) # L)" rule: shape.cases) auto

lemma shape_Client:
  "shape mbo ((ReceivePacketEvent Client r, t) # L) =
     (0 \<le> pkt_ack r \<and>
      (L = [] \<or> (\<exists>t'. L = [(RequestMessageEvent, t')] \<and> covers mbo (pkt_ack r))))"
  by (cases "(mbo, (ReceivePacketEvent Client r, t) # L)" rule: shape.cases) auto

lemma sendNextPacket_eq:
  assumes "c_msgBytes (client s) = Some mb" "c_seq (client s) = Some sq"
    "c_ack (client s) = Some ak"
  shows "sendNextPacket env t s =
    Inr (if LOST_PACKET_PROBABILITY env \<le> of_int (randint env (ndraws s))
         then s\<lparr>ndraws := Suc (ndraws s),
                eventQueue := send_queue env mb sq ak t (eventQueue s)\<rparr>
         else s\<lparr>ndraws := Suc (ndraws s)\<rparr>)"
  using assms
  by (simp add: sendNextPacket_def send_queue_def data_packet_def Let_def queueRequestMessage_def)

lemma send_queue_shape:
  assumes "sorted (map snd q)" and "live q = []" and "0 \<le> sq" and "sq < int (length mb)"
  shows "sorted (map snd (send_queue env mb sq ak t q)) \<and>
         shape (Some mb) (live (send_queue env mb sq ak t q))"
proof -
  let ?p = "data_packet env mb sq ak"
  from assms(3,4) have n: "nat sq < length mb" and sq: "sq = int (nat sq)" by auto
  note f = data_packet_fields[OF n, of env ak, folded sq]
  have good: "good_data ?p" using f assms(3) by (simp add: good_data_def)
  have s1: "sorted (map snd (enqueue (ReceivePacketEvent Server ?p) (t + 5) q))"
    using assms(1) by (rule sorted_enqueue)
  have l1: "live (enqueue (ReceivePacketEvent Server ?p) (t + 5) q)
              = [(ReceivePacketEvent Server ?p, t + 5)]"
    using live_enqueue[OF assms(1), of "ReceivePacketEvent Server ?p" "t + 5"] assms(2) by simp
  show ?thesis
  proof (cases "FIN ?p")
    case False
    with s1 l1 good show ?thesis
      by (simp add: send_queue_def Let_def TRANSMISSION_DELAY_def)
  next
    case True
    have cov: "covers (Some mb) (pkt_seq ?p + int (length (pkt_data ?p)))"
      using f True n assms(3) by (auto simp: covers_def)
    have "live (enqueue RequestMessageEvent (t + 20)
                  (enqueue (ReceivePacketEvent Server ?p) (t + 5) q))
            = [(ReceivePacketEvent Server ?p, t + 5), (RequestMessageEvent, t + 20)]"
      using live_enqueue[OF s1, of RequestMessageEvent "t + 20"] l1 by simp
    with True s1 good cov show ?thesis
      by (simp add: send_queue_def Let_def const_defs sorted_enqueue)
  qed
qed

lemma send_stop_and_wait:
  assumes "sorted (map snd (eventQueue s0))" and "live (eventQueue s0) = []"
    and "c_msgBytes (client s0) = Some mb" and "c_seq (client s0) = Some sq"
    and "0 \<le> sq" and "sq < int (length mb)"
    and "sendNextPacket env t s0 = Inr s'"
  shows "stop_and_wait s'"
proof -
  from assms(3,4,7) obtain ak where ak: "c_ack (client s0) = Some ak"
    by (cases "c_ack (client s0)") (auto simp: sendNextPacket_def)
  from send_queue_shape[OF assms(1,2,5,6), of env ak t] assms(1,2,3,7)
  show ?thesis
    unfolding sendNextPacket_eq[OF assms(3,4) ak]
    by (auto simp: stop_and_wait_def split: if_splits)
qed

lemma request_stop_and_wait:
  assumes "sorted (map snd (eventQueue s0))" and "live (eventQueue s0) = []"
    and "requestMessage env t s0 = Inr s'"
  shows "stop_and_wait s'"
proof (cases "inputs s0")
  case Nil
  with assms(3) show ?thesis by (simp add: requestMessage_def)
next
  case (Cons msg rest)
  show ?thesis
  proof (cases "msg = []")
    case True
    with Cons assms show ?thesis by (auto simp: requestMessage_def stop_and_wait_def)
  next
    case False
    let ?s1 = "s0\<lparr>inputs := rest, console := console s0 @ [ClientSends msg],
      client := (client s0)\<lparr>c_msgBytes := Some msg, c_seq := Some 0, c_ack := Some 0\<rparr>\<rparr>"
    from Cons False assms(3) have "sendNextPacket env t ?s1 = Inr s'"
      by (simp add: requestMessage_def Let_def)
    from send_stop_and_wait[OF _ _ _ _ _ _ this, of msg 0] assms(1,2) False show ?thesis by simp
  qed
qed

lemma server_stop_and_wait:
  assumes "sorted (map snd (eventQueue s0))"
    and "shape (c_msgBytes (client s0)) ((ReceivePacketEvent Server p, t) # live (eventQueue s0))"
    and "server_receivePacket env p t s0 = Inr s'"
  shows "stop_and_wait s'"
proof -
  let ?r = "(TCPPacket env (pkt_ack p) (pkt_seq p + int (length (pkt_data p))) True [])
              \<lparr>FIN := FIN p\<rparr>"
  from assms(3) have q: "eventQueue s' = enqueue (ReceivePacketEvent Client ?r) (t + 5) (eventQueue s0)"
    and c: "client s' = client s0"
    by (auto simp: server_receivePacket_def Let_def TRANSMISSION_DELAY_def TCPPacket_def
        split: if_splits)
  have l: "live (eventQueue s') = enqueue (ReceivePacketEvent Client ?r) (t + 5) (live (eventQueue s0))"
    unfolding q using live_enqueue[OF assms(1)] by simp
  have ack: "pkt_ack ?r = pkt_seq p + int (length (pkt_data p))" by (simp add: TCPPacket_def)
  from assms(2) have "shape (c_msgBytes (client s0)) (live (eventQueue s'))"
    unfolding l shape_Server by (auto simp: shape_Client ack good_data_def)
  with c q assms(1) show ?thesis by (simp add: stop_and_wait_def sorted_enqueue)
qed

lemma client_stop_and_wait:
  assumes "sorted (map snd (eventQueue s0))"
    and "shape (c_msgBytes (client s0)) ((ReceivePacketEvent Client r, t) # live (eventQueue s0))"
    and "client_receivePacket env r t s0 = Inr s'"
  shows "stop_and_wait s'"
proof -
  from assms(3) obtain mb where mb: "c_msgBytes (client s0) = Some mb"
    by (cases "c_msgBytes (client s0)") (auto simp: client_receivePacket_def Let_def)
  let ?s1 = "s0\<lparr>client := (client s0)\<lparr>c_seq := Some (pkt_ack r), c_ack := Some (pkt_seq r + 1),
      acknowledged := (acknowledged (client s0))(r \<mapsto> True)\<rparr>\<rparr>"
  from assms(2) have nonneg: "0 \<le> pkt_ack r" by (simp add: shape_Client)
  show ?thesis
  proof (cases "pkt_ack r < int (length mb)")
    case True
    with assms(2) mb have empty: "live (eventQueue s0) = []"
      by (auto simp: shape_Client covers_def)
    from True mb assms(3) have "sendNextPacket env t ?s1 = Inr s'"
      by (simp add: client_receivePacket_def Let_def)
    from send_stop_and_wait[OF _ _ _ _ nonneg True this] assms(1) empty mb show ?thesis by simp
  next
    case False
    with mb assms(3) have "s' = ?s1" by (simp add: client_receivePacket_def Let_def)
    moreover from assms(2) have "shape (Some mb) (live (eventQueue s0))"
      by (auto simp: shape_Client mb)
    ultimately show ?thesis using assms(1) mb by (simp add: stop_and_wait_def)
  qed
qed

lemma step_stop_and_wait:
  assumes "stop_and_wait s" and "step env s = Inr s'"
  shows "stop_and_wait s'"
proof (cases "eventQueue s")
  case Nil
  with assms show ?thesis by (simp add: step_def)
next
  case (Cons a q)
  obtain e t where a: "a = (e, t)" by (cases a)
  let ?s0 = "s\<lparr>eventQueue := q\<rparr>"
  from Cons a assms(2) have d: "dispatch env e t ?s0 = Inr s'" by (simp add: step_def)
  from assms(1) Cons a have sorted: "sorted (map snd (eventQueue ?s0))"
    and sh: "shape (c_msgBytes (client ?s0)) (live ((e, t) # eventQueue ?s0))"
    by (auto simp: stop_and_wait_def)
  show ?thesis
  proof (cases e)
    case RequestMessageEvent
    with sh have "live (eventQueue ?s0) = []" by (simp add: live_def)
    from request_stop_and_wait[OF sorted this] d RequestMessageEvent show ?thesis
      by (simp add: dispatch_def)
  next
    case (ReceivePacketEvent h p)
    show ?thesis
    proof (cases h)
      case Client
      with ReceivePacketEvent sh d client_stop_and_wait[OF sorted, of p t env s'] show ?thesis
        by (simp add: dispatch_def live_def)
    next
      case Server
      with ReceivePacketEvent sh d server_stop_and_wait[OF sorted, of p t env s'] show ?thesis
        by (simp add: dispatch_def live_def)
    qed
  next
    case (TimeoutEvent ob)
    with d have "s' = ?s0" by (auto simp: dispatch_def split: sum.splits if_splits)
    with sh sorted TimeoutEvent show ?thesis by (simp add: stop_and_wait_def live_def)
  qed
qed

lemma steps_stop_and_wait:
  "stop_and_wait s \<Longrightarrow> steps env n s = Inr s' \<Longrightarrow> stop_and_wait s'"
proof (induction n arbitrary: s)
  case 0
  then show ?case by simp
next
  case (Suc n)
  then obtain s1 where s1: "step env s = Inr s1" "steps env n s1 = Inr s'"
    by (auto split: sum.splits)
  from Suc.IH[OF step_stop_and_wait[OF Suc.prems(1) s1(1)] s1(2)] show ?case .
qed

lemma start_stop_and_wait: "stop_and_wait (start ins)"
  by (simp add: stop_and_wait_def start_def queueTimeoutMessage_def queueRequestMessage_def
      live_def const_defs TCPClient_init_def)

subsection \<open>After a lost packet\<close>

lemma timeouts_only_forever:
  "live (eventQueue s) = [] \<Longrightarrow> steps env k s = Inr s'' \<Longrightarrow> live (eventQueue s'') = []"
proof (induction k arbitrary: s)
  case 0
  then show ?case by simp
next
  case (Suc k)
  then obtain s1 where s1: "step env s = Inr s1" "steps env k s1 = Inr s''"
    by (auto split: sum.splits)
  have "live (eventQueue s1) = []"
  proof (cases "eventQueue s")
    case Nil
    with s1(1) Suc.prems(1) show ?thesis by (simp add: step_def)
  next
    case (Cons a q)
    obtain e t where a: "a = (e, t)" by (cases a)
    from Suc.prems(1) Cons a have "is_timeout (e, t)" and q: "live q = []"
      by (auto simp: live_def split: if_splits)
    then obtain ob where "e = TimeoutEvent ob" by (cases e) auto
    with s1(1) Cons a have "s1 = s\<lparr>eventQueue := q\<rparr>"
      by (auto simp: step_def dispatch_def split: sum.splits if_splits)
    with q show ?thesis by simp
  qed
  from Suc.IH[OF this s1(2)] show ?case .
qed

lemma server_receivePacket_ndraws:
  "server_receivePacket env p t s = Inr s' \<Longrightarrow> ndraws s' = ndraws s"
  by (auto simp: server_receivePacket_def Let_def split: if_splits)

lemma draw_finds_only_timeouts:
  assumes "stop_and_wait s" and "step env s = Inr s'" and "ndraws s' \<noteq> ndraws s"
  shows "live (tl (eventQueue s)) = []"
proof (cases "eventQueue s")
  case Nil
  with assms show ?thesis by (simp add: step_def)
next
  case (Cons a q)
  obtain e t where a: "a = (e, t)" by (cases a)
  let ?s0 = "s\<lparr>eventQueue := q\<rparr>"
  from Cons a assms(2) have d: "dispatch env e t ?s0 = Inr s'" by (simp add: step_def)
  from assms(1) Cons a have sh: "shape (c_msgBytes (client s)) (live ((e, t) # q))"
    by (auto simp: stop_and_wait_def)
  show ?thesis
  proof (cases e)
    case RequestMessageEvent
    with sh Cons show ?thesis by (simp add: live_def)
  next
    case (ReceivePacketEvent h p)
    show ?thesis
    proof (cases h)
      case Server
      with ReceivePacketEvent d assms(3) server_receivePacket_ndraws[of env p t ?s0 s']
      show ?thesis by (simp add: dispatch_def)
    next
      case Client
      show ?thesis
      proof (rule ccontr)
        assume "live (tl (eventQueue s)) \<noteq> []"
        with sh Cons ReceivePacketEvent Client
        obtain mb where "c_msgBytes (client s) = Some mb" "int (length mb) \<le> pkt_ack p"
          by (auto simp: live_def shape_Client covers_def split: option.splits)
        with d ReceivePacketEvent Client have "ndraws s' = ndraws s"
          by (auto simp: dispatch_def client_receivePacket_def Let_def)
        with assms(3) show False by simp
      qed
    qed
  next
    case (TimeoutEvent ob)
    with d assms(3) show ?thesis by (auto simp: dispatch_def split: sum.splits if_splits)
  qed
qed

section \<open>The properties\<close>

subsection \<open>C1: reassembly without loss\<close>



subsection \<open>C2: the advertised window\<close>

text \<open>
  C2 as stated fails: the client keeps no window and no count of outstanding bytes, and
  reads no window field. Take the client of the run on \<^verbatim>\<open>HELLOWORLD\<close> after it has sent
  the first packet (the constructor's default window is large here and plays no part),
  and hand its \<open>receivePacket\<close> an acknowledgment of byte 4 that advertises the window 0.
  Nothing was in flight; the client sends the next four bytes all the same, so four
  bytes are outstanding against a window of 0.
\<close>

theorem window_zero_still_sends:
  "map_sum id client (steps wide_window_env 2 (start [''HELLOWORLD''])) =
     Inr (client awaiting_reply) \<and>
   pkt_window zero_window_ack = 0 \<and>
   bytes_in_flight (eventQueue awaiting_reply) = 0 \<and>
   map_sum id eventQueue
     (client_receivePacket wide_window_env zero_window_ack 10 awaiting_reply) =
     Inr [(ReceivePacketEvent Server
             \<lparr>pkt_seq = 4, pkt_ack = 1, ACK = True, FIN = False, SYN = False,
              pkt_window = 65535, pkt_data = ''OWOR''\<rparr>, 15),
          (TimeoutEvent ClientObject, 20)] \<and>
   map_sum id (bytes_in_flight \<circ> eventQueue)
     (client_receivePacket wide_window_env zero_window_ack 10 awaiting_reply) = Inr 4 \<and>
   \<not> (4 :: int) \<le> pkt_window zero_window_ack"
  by (simp add: run_defs example_defs bytes_in_flight_def eval_nat_numeral)

text \<open>
  C2, amended. The client sends one packet and waits for its acknowledgment, whatever
  window the replies advertise: in every state a run of the driver reaches, at most one
  packet (a data packet or the reply to it) is in transit and at most \<^verbatim>\<open>MAX_PACKET_DATA\<close>
  data bytes are on their way to the server. \<open>sendNextPacket\<close> tests no window: the
  events that the client's \<open>receivePacket\<close> schedules are the same for every value of
  the window field of the acknowledgment.
\<close>

theorem one_packet_in_transit_whatever_window:
  assumes "steps env n (start ins) = Inr s"
  shows "length (filter is_packet_event (eventQueue s)) \<le> 1 \<and>
         int (bytes_in_flight (eventQueue s)) \<le> MAX_PACKET_DATA \<and>
         map_sum id eventQueue (client_receivePacket env (p\<lparr>pkt_window := w\<rparr>) u z) =
         map_sum id eventQueue (client_receivePacket env p u z)"
proof -
  from steps_stop_and_wait[OF start_stop_and_wait assms]
  have "shape (c_msgBytes (client s)) (live (eventQueue s))" by (simp add: stop_and_wait_def)
  from shape_bound[OF this] client_receivePacket_window show ?thesis
    by (simp add: bytes_in_flight_live packets_live MAX_PACKET_DATA_def)
qed

theorem one_packet_in_transit_whatever_window_witness:
  "steps no_loss_env 3 (start [''HELLOWORLD'']) = Inr after_HELL_reply \<and>
   length (filter is_packet_event (eventQueue after_HELL_reply)) \<le> 1 \<and>
   int (bytes_in_flight (eventQueue after_HELL_reply)) \<le> MAX_PACKET_DATA \<and>
   map_sum id eventQueue
     (client_receivePacket no_loss_env (HELL_reply\<lparr>pkt_window := 7\<rparr>) 10 after_HELL) =
   map_sum id eventQueue (client_receivePacket no_loss_env HELL_reply 10 after_HELL)"
  using one_packet_in_transit_whatever_window[where env = no_loss_env and n = 3
      and ins = "[''HELLOWORLD'']" and s = after_HELL_reply and p = HELL_reply and w = 7
      and u = 10 and z = after_HELL] steps_3_HELLOWORLD
  by simp

subsection \<open>C3: a timeout on an unacknowledged packet\<close>

text \<open>
  C3 asks that a timeout on an unacknowledged packet resends it and schedules a new
  timeout; the header comment of the module asks the same of the handler. The handler
  does not: in the run where the user types \<^verbatim>\<open>A\<close> and the only data packet is lost, the
  second turn of the loop dispatches the \<^verbatim>\<open>TimeoutEvent\<close>, the client's \<^verbatim>\<open>ack\<close> is 0, and
  the dispatch raises \<^verbatim>\<open>AttributeError\<close> on \<^verbatim>\<open>self.server\<close>. Nothing is resent and the run
  ends there.
\<close>

theorem timeout_of_lost_packet_raises:
  "TCPSimulator dropping_env [''A''] 2 = Some (Inl (AttributeError ''server''))"
  by (simp add: run_defs example_defs eval_nat_numeral)

subsection \<open>C4: packets out of order\<close>

text \<open>
  C4 as stated fails: the server compares no sequence numbers (its docstring: "This
  version assumes that the sequence numbers appear in the correct order"). After the
  first packet of \<^verbatim>\<open>HELLOWORLD\<close> the server expects byte 4; given the first packet again
  (its seq is 0), it appends the four bytes a second time.
\<close>

theorem server_appends_duplicate:
  "steps no_loss_env 2 (start [''HELLOWORLD'']) = Inr after_HELL \<and>
   s_msgBytes (server after_HELL) = ''HELL'' \<and>
   pkt_seq HELL_packet \<noteq> s_ack (server after_HELL) \<and>
   map_sum id (s_msgBytes \<circ> server)
     (server_receivePacket no_loss_env HELL_packet 12 after_HELL) = Inr ''HELLHELL''"
  using steps_2_HELLOWORLD
  by (simp add: server_receivePacket_def TCPPacket_def TRANSMISSION_DELAY_def example_defs)

text \<open>
  C4, amended. For every packet \<open>p\<close> that the server receives, whatever its seq, the data
  is appended to the buffer and next-expected-seq becomes \<open>p.seq + len(p.data)\<close> (an
  advance by \<open>len(p.data)\<close> when \<open>p.seq\<close> is the value expected); nothing is compared.
  Without FIN the call returns, having queued a reply that acknowledges the new value.
  With FIN the buffer, with the data of \<open>p\<close> appended, is decoded: when it is well-formed
  UTF-8 it is printed, the server is reset (empty buffer, next-expected-seq 0) and a
  reply with FIN, acknowledging \<open>p.seq + len(p.data)\<close>, is queued; when it is not (a
  duplicate appended earlier can cause that), \<^verbatim>\<open>decode\<close> raises \<^verbatim>\<open>UnicodeDecodeError\<close> and
  nothing is printed, reset or queued.
\<close>

theorem server_receivePacket_appends:
  "if FIN p \<and> \<not> decodable (s_msgBytes (server s) @ pkt_data p)
   then server_receivePacket env p t s = Inl UnicodeDecodeError
   else \<exists>s'. server_receivePacket env p t s = Inr s' \<and>
     eventQueue s' =
       enqueue (ReceivePacketEvent Client
                  ((TCPPacket env (pkt_ack p) (pkt_seq p + int (length (pkt_data p))) True [])
                     \<lparr>FIN := FIN p\<rparr>))
         (t + TRANSMISSION_DELAY) (eventQueue s) \<and>
     (if FIN p
      then s_msgBytes (server s') = [] \<and> s_ack (server s') = 0 \<and>
           console s' = console s @ [ServerReceives (s_msgBytes (server s) @ pkt_data p)]
      else s_msgBytes (server s') = s_msgBytes (server s) @ pkt_data p \<and>
           s_ack (server s') = pkt_seq p + int (length (pkt_data p)) \<and>
           console s' = console s)"
  by (auto simp: server_receivePacket_def Let_def resetForNextMessage_def TCPPacket_def)

theorem server_receivePacket_appends_witness:
  "(\<exists>s'. server_receivePacket no_loss_env OWOR_packet 15 after_HELL = Inr s' \<and>
     eventQueue s' =
       [(ReceivePacketEvent Client HELL_reply, 10), (TimeoutEvent ClientObject, 20),
        (ReceivePacketEvent Client OWOR_reply, 20)] \<and>
     s_msgBytes (server s') = ''HELLOWOR'' \<and> s_ack (server s') = 8) \<and>
   \<not> decodable (s_msgBytes (server after_HELL) @ pkt_data A9_fin_packet) \<and>
   server_receivePacket no_loss_env A9_fin_packet 15 after_HELL = Inl UnicodeDecodeError"
proof -
  from server_receivePacket_appends[of OWOR_packet after_HELL no_loss_env 15]
  have "\<exists>s'. server_receivePacket no_loss_env OWOR_packet 15 after_HELL = Inr s' \<and>
     eventQueue s' =
       [(ReceivePacketEvent Client HELL_reply, 10), (TimeoutEvent ClientObject, 20),
        (ReceivePacketEvent Client OWOR_reply, 20)] \<and>
     s_msgBytes (server s') = ''HELLOWOR'' \<and> s_ack (server s') = 8"
    by (simp add: example_defs TCPPacket_def TRANSMISSION_DELAY_def) blast
  moreover have nd: "\<not> decodable (s_msgBytes (server after_HELL) @ pkt_data A9_fin_packet)"
    by (simp add: example_defs decodable_def)
  moreover from server_receivePacket_appends[of A9_fin_packet after_HELL no_loss_env 15] nd
  have "server_receivePacket no_loss_env A9_fin_packet 15 after_HELL = Inl UnicodeDecodeError"
    by (simp add: A9_fin_packet_def)
  ultimately show ?thesis by blast
qed

subsection \<open>C5: redelivery\<close>

text \<open>
  C5 as stated fails. After the first two packets of \<^verbatim>\<open>HELLOWORLD\<close> the buffer is
  \<^verbatim>\<open>HELLOWOR\<close> and the server expects byte 8; the first packet delivered again is
  appended again, and next-expected-seq goes back to 4.
\<close>

theorem redelivery_changes_buffer:
  "steps no_loss_env 4 (start [''HELLOWORLD'']) = Inr after_OWOR \<and>
   s_msgBytes (server after_OWOR) = ''HELLOWOR'' \<and> s_ack (server after_OWOR) = 8 \<and>
   map_sum id (s_msgBytes \<circ> server)
     (server_receivePacket no_loss_env HELL_packet 17 after_OWOR) = Inr ''HELLOWORHELL'' \<and>
   map_sum id (s_ack \<circ> server)
     (server_receivePacket no_loss_env HELL_packet 17 after_OWOR) = Inr 4"
  using steps_4_HELLOWORLD
  by (simp add: server_receivePacket_def TCPPacket_def TRANSMISSION_DELAY_def example_defs)

text \<open>
  C5, amended. Let the server have received the packet \<open>p\<close>, and let \<open>p\<close> be delivered
  again in any later state. Without FIN the data of \<open>p\<close> is appended to the buffer once
  more (the buffer is unchanged only when \<open>p\<close> has no data), and next-expected-seq is set
  to \<open>p.seq + len(p.data)\<close>, the value the first delivery gave it: it stays as it is when
  \<open>p\<close> is the packet just received, and goes back when later packets had advanced it.
  With FIN the buffer with the data of \<open>p\<close> appended is decoded: when it is well-formed
  UTF-8 it is printed again and the server is left as the first delivery left it (empty
  buffer, next-expected-seq 0); when it is not, \<^verbatim>\<open>decode\<close> raises \<^verbatim>\<open>UnicodeDecodeError\<close>.
\<close>

theorem redelivery_appends_again:
  assumes "server_receivePacket env p t s = Inr s1"
  shows "s_ack (server s1) = (if FIN p then 0 else pkt_seq p + int (length (pkt_data p))) \<and>
     (if FIN p \<and> \<not> decodable (s_msgBytes (server z) @ pkt_data p)
      then server_receivePacket env p t' z = Inl UnicodeDecodeError
      else \<exists>z'. server_receivePacket env p t' z = Inr z' \<and>
        s_ack (server z') = s_ack (server s1) \<and>
        s_msgBytes (server z') =
          (if FIN p then [] else s_msgBytes (server z) @ pkt_data p) \<and>
        console z' =
          (if FIN p then console z @ [ServerReceives (s_msgBytes (server z) @ pkt_data p)]
           else console z))"
  using assms
  by (auto simp: server_receivePacket_def Let_def resetForNextMessage_def split: if_splits)

theorem redelivery_appends_again_witness:
  "server_receivePacket no_loss_env HELL_packet 5
     (after_HELL\<lparr>server := TCPServer_init, eventQueue := [(TimeoutEvent ClientObject, 20)]\<rparr>)
     = Inr after_HELL \<and>
   s_ack (server after_HELL) = 4 \<and>
   (\<exists>z'. server_receivePacket no_loss_env HELL_packet 12 after_HELL = Inr z' \<and>
      s_ack (server z') = 4 \<and> s_msgBytes (server z') = ''HELLHELL'') \<and>
   s_ack (server after_OWOR) = 8 \<and>
   (\<exists>z'. server_receivePacket no_loss_env HELL_packet 17 after_OWOR = Inr z' \<and>
      s_ack (server z') = 4 \<and> s_msgBytes (server z') = ''HELLOWORHELL'')"
proof -
  let ?s = "after_HELL\<lparr>server := TCPServer_init,
              eventQueue := [(TimeoutEvent ClientObject, 20)]\<rparr>"
  have first: "server_receivePacket no_loss_env HELL_packet 5 ?s = Inr after_HELL"
    by (simp add: server_receivePacket_def TCPPacket_def TCPServer_init_def
        TRANSMISSION_DELAY_def example_defs)
  have a: "s_ack (server after_HELL) = 4" "s_ack (server after_OWOR) = 8"
    by (simp_all add: example_defs)
  from redelivery_appends_again[OF first, of after_HELL 12]
  have "\<exists>z'. server_receivePacket no_loss_env HELL_packet 12 after_HELL = Inr z' \<and>
      s_ack (server z') = 4 \<and> s_msgBytes (server z') = ''HELLHELL''"
    by (simp add: example_defs) blast
  moreover from redelivery_appends_again[OF first, of after_OWOR 17]
  have "\<exists>z'. server_receivePacket no_loss_env HELL_packet 17 after_OWOR = Inr z' \<and>
      s_ack (server z') = 4 \<and> s_msgBytes (server z') = ''HELLOWORHELL''"
    by (simp add: example_defs) blast
  ultimately show ?thesis using first a by blast
qed

subsection \<open>C6: the client's handling of an acknowledgment\<close>

text \<open>
  C6 as stated fails in its first part: the client records no packet it sends, and what
  \<open>receivePacket\<close> enters in \<^verbatim>\<open>acknowledged\<close> is the acknowledgment packet it was given.
  In the run on \<^verbatim>\<open>HELLOWORLD\<close> the reply to the first data packet acknowledges byte 4;
  once the client has handled it, the dictionary holds that reply and not the data
  packet, whose seq 0 is below 4.
\<close>

theorem data_packet_not_marked:
  "steps no_loss_env 2 (start [''HELLOWORLD'']) = Inr after_HELL \<and>
   eventQueue after_HELL =
     [(ReceivePacketEvent Client HELL_reply, 10), (TimeoutEvent ClientObject, 20)] \<and>
   step no_loss_env after_HELL = Inr after_HELL_reply \<and>
   pkt_seq HELL_packet < pkt_ack HELL_reply \<and>
   acknowledged (client after_HELL_reply) HELL_packet = None \<and>
   acknowledged (client after_HELL_reply) HELL_reply = Some True"
  using steps_2_HELLOWORLD step_after_HELL
  by (simp add: example_defs)

text \<open>
  C6, amended. For every acknowledgment packet \<open>p\<close> handled by the client's
  \<open>receivePacket\<close> (during a message, so that \<^verbatim>\<open>msgBytes\<close> exists) the call returns, the
  packet \<open>p\<close> itself is entered in \<^verbatim>\<open>acknowledged\<close> with the value true and nothing else
  in the dictionary changes, the send pointer \<^verbatim>\<open>seq\<close> is \<open>p.ack\<close>, and \<^verbatim>\<open>ack\<close> is
  \<open>p.seq + 1\<close>.
\<close>

theorem client_receivePacket_marks_reply:
  assumes "c_msgBytes (client s) = Some mb"
  shows "\<exists>s'. client_receivePacket env p t s = Inr s' \<and>
     acknowledged (client s') = (acknowledged (client s))(p \<mapsto> True) \<and>
     c_seq (client s') = Some (pkt_ack p) \<and> c_ack (client s') = Some (pkt_seq p + 1)"
proof (cases "pkt_ack p < int (length mb)")
  case True
  let ?s1 = "s\<lparr>client := (client s)\<lparr>c_seq := Some (pkt_ack p), c_ack := Some (pkt_seq p + 1),
      acknowledged := (acknowledged (client s))(p \<mapsto> True)\<rparr>\<rparr>"
  obtain s' where s': "sendNextPacket env t ?s1 = Inr s'"
    using sendNextPacket_returns[of ?s1 mb "pkt_ack p" "pkt_seq p + 1" env t] assms by auto
  have "client s' = client ?s1" using sendNextPacket_frame[OF s'] by simp
  moreover have "client_receivePacket env p t s = Inr s'"
    using assms True s' by (simp add: client_receivePacket_def Let_def)
  ultimately show ?thesis by simp
next
  case False
  then show ?thesis using assms by (simp add: client_receivePacket_def Let_def)
qed

theorem client_receivePacket_marks_reply_witness:
  "c_msgBytes (client after_HELL) = Some ''HELLOWORLD'' \<and>
   (\<exists>s'. client_receivePacket no_loss_env HELL_reply 10 after_HELL = Inr s' \<and>
     acknowledged (client s') = [HELL_reply \<mapsto> True] \<and>
     c_seq (client s') = Some 4 \<and> c_ack (client s') = Some 1)"
  using client_receivePacket_marks_reply[of after_HELL "''HELLOWORLD''" no_loss_env HELL_reply 10]
  by (simp add: after_HELL_def HELL_reply_def)

subsection \<open>C7: the acknowledged set only grows\<close>

text \<open>
  C7. Whatever the state and the queue a run is in, and whatever events are dispatched
  in whatever order: a key that \<^verbatim>\<open>acknowledged\<close> maps to true after \<open>m\<close> turns of the loop
  is still mapped to true after any later number \<open>n\<close> of turns.
\<close>

theorem acknowledged_monotone:
  assumes "m \<le> n" and "steps env m s = Inr s1" and "steps env n s = Inr s2"
    and "acknowledged (client s1) k = Some True"
  shows "acknowledged (client s2) k = Some True"
proof -
  from assms(1) obtain d where "n = m + d" using le_Suc_ex by blast
  with assms(2,3) have "steps env d s1 = Inr s2" by (simp add: steps_add)
  from steps_acknowledged[OF this assms(4)] show ?thesis .
qed

theorem acknowledged_monotone_witness:
  "steps no_loss_env 3 (start [''HELLOWORLD'']) = Inr after_HELL_reply \<and>
   steps no_loss_env 4 (start [''HELLOWORLD'']) = Inr after_OWOR \<and>
   acknowledged (client after_HELL_reply) HELL_reply = Some True \<and>
   acknowledged (client after_OWOR) HELL_reply = Some True"
  using acknowledged_monotone[of 3 4 no_loss_env "start [''HELLOWORLD'']" after_HELL_reply
      after_OWOR HELL_reply] steps_3_HELLOWORLD steps_4_HELLOWORLD
  by (simp add: after_HELL_reply_def)

subsection \<open>C8: the loss draw\<close>

text \<open>
  C8 asks that a transmission is dropped with probability \<^verbatim>\<open>LOST_PACKET_PROBABILITY\<close>, so
  that with the constant at 1 nothing is delivered. The module compares the constant
  with \<^verbatim>\<open>random.randint(0,1)\<close>, an integer that is 0 or 1, where a draw from the unit
  interval was meant: a draw of 1 delivers the packet for every value of the constant up
  to 1. With the constant at 1 and draws of 1 the message \<^verbatim>\<open>AB\<close> reaches the server.
\<close>

theorem certain_loss_still_delivers:
  "LOST_PACKET_PROBABILITY certain_loss_env = 1 \<and>
   map_option (map_sum id console) (TCPSimulator certain_loss_env [''AB'', []] 5) =
     Some (Inr [ClientSends ''AB'', ServerReceives ''AB''])"
  by (simp add: run_defs example_defs eval_nat_numeral)

subsection \<open>C9: the driver's timeout event\<close>

text \<open>
  C9. The driver queues one \<^verbatim>\<open>TimeoutEvent\<close>, built on the client object, for time
  \<^verbatim>\<open>TIMEOUT\<close>. Dispatching such an event never resends anything: when the client's \<^verbatim>\<open>ack\<close>
  is a non-zero integer the state is returned as it is; when \<^verbatim>\<open>ack\<close> is 0 the read of
  \<^verbatim>\<open>self.server\<close> raises, and when the client has no \<^verbatim>\<open>ack\<close> yet the test itself raises.
\<close>

theorem timeout_dispatch_never_resends:
  "eventQueue (start ins) = [(RequestMessageEvent, 0), (TimeoutEvent ClientObject, TIMEOUT)] \<and>
   dispatch env (TimeoutEvent ClientObject) t s =
     (case c_ack (client s) of
        None \<Rightarrow> Inl (AttributeError ''ack'')
      | Some a \<Rightarrow> if a \<noteq> 0 then Inr s else Inl (AttributeError ''server''))"
  by (simp add: start_def queueTimeoutMessage_def queueRequestMessage_def const_defs
      dispatch_def timeout_object_ack_def split: option.splits)

theorem timeout_dispatch_never_resends_witness:
  "dispatch no_loss_env (TimeoutEvent ClientObject) 20 after_HELL_reply = Inr after_HELL_reply \<and>
   dispatch no_loss_env (TimeoutEvent ClientObject) 20 after_HELL =
     Inl (AttributeError ''server'') \<and>
   dispatch no_loss_env (TimeoutEvent ClientObject) 20 (start [[]]) =
     Inl (AttributeError ''ack'')"
  using timeout_dispatch_never_resends[of "[[]]" no_loss_env 20 after_HELL_reply]
    timeout_dispatch_never_resends[of "[[]]" no_loss_env 20 after_HELL]
    timeout_dispatch_never_resends[of "[[]]" no_loss_env 20 "start [[]]"]
  by (simp add: after_HELL_reply_def after_HELL_def start_def queueTimeoutMessage_def
      queueRequestMessage_def TCPClient_init_def)

subsection \<open>C10: what sendNextPacket schedules\<close>

text \<open>
  C10. A call of \<open>sendNextPacket\<close> that returns leaves the \<^verbatim>\<open>TimeoutEvent\<close>s of the queue as
  they were: it adds none. When the draw loses the packet, the call changes nothing but
  the count of draws: the queue is as before and the packet is kept nowhere. If the
  queue then holds timeouts only (in a run of the driver it does whenever a draw is
  made, by \<open>draw_finds_only_timeouts\<close>), no later turn of the loop schedules anything:
  every later queue holds timeouts only.
\<close>

theorem sendNextPacket_enqueues_no_timeout:
  assumes "sendNextPacket env t s = Inr s'"
  shows "filter is_timeout (eventQueue s') = filter is_timeout (eventQueue s) \<and>
     (\<not> LOST_PACKET_PROBABILITY env \<le> of_int (randint env (ndraws s)) \<longrightarrow>
        s' = s\<lparr>ndraws := Suc (ndraws s)\<rparr> \<and>
        (live (eventQueue s) = [] \<longrightarrow>
           (\<forall>k s''. steps env k s' = Inr s'' \<longrightarrow> live (eventQueue s'') = [])))"
proof -
  have a: "filter is_timeout (eventQueue s') = filter is_timeout (eventQueue s)"
    and b: "\<not> LOST_PACKET_PROBABILITY env \<le> of_int (randint env (ndraws s)) \<Longrightarrow>
        s' = s\<lparr>ndraws := Suc (ndraws s)\<rparr>"
    using assms
    by (auto simp: sendNextPacket_def Let_def queueRequestMessage_def filter_enqueue_other
        split: option.splits if_splits)
  have "live (eventQueue s'') = []"
    if "\<not> LOST_PACKET_PROBABILITY env \<le> of_int (randint env (ndraws s))"
      and "live (eventQueue s) = []" and "steps env k s' = Inr s''" for k s''
    using timeouts_only_forever[OF _ that(3)] b[OF that(1)] that(2) by simp
  with a b show ?thesis by blast
qed

theorem sendNextPacket_enqueues_no_timeout_witness:
  "sendNextPacket dropping_env 10 sending_OWOR = Inr (sending_OWOR\<lparr>ndraws := 2\<rparr>) \<and>
   \<not> LOST_PACKET_PROBABILITY dropping_env
       \<le> of_int (randint dropping_env (ndraws sending_OWOR)) \<and>
   filter is_timeout (eventQueue (sending_OWOR\<lparr>ndraws := 2\<rparr>)) =
     [(TimeoutEvent ClientObject, 20)] \<and>
   steps dropping_env 1 (sending_OWOR\<lparr>ndraws := 2\<rparr>) =
     Inr (sending_OWOR\<lparr>ndraws := 2, eventQueue := []\<rparr>) \<and>
   live (eventQueue (sending_OWOR\<lparr>ndraws := 2, eventQueue := []\<rparr>)) = []"
  using sendNextPacket_enqueues_no_timeout[of dropping_env 10 sending_OWOR
      "sending_OWOR\<lparr>ndraws := 2\<rparr>"]
  by (simp add: run_defs example_defs live_def)

end
